theory Spec2Isabelle
  imports Complex_Main
begin

section \<open>The drawing surface of GraceNote (components/Canvas.tsx)\<close>

text \<open>
  The component \<^verbatim>\<open>Canvas\<close> keeps four pieces of React state (\<^verbatim>\<open>isDrawing\<close>,
  \<^verbatim>\<open>color\<close>, \<^verbatim>\<open>lineWidth\<close>, \<^verbatim>\<open>isEraser\<close>), two element references and two props
  that matter here (\<^verbatim>\<open>readOnly\<close>, \<^verbatim>\<open>onSave\<close>). Its handlers mutate an HTML canvas
  through the 2D context. The model passes the whole of that state explicitly:
  the canvas element with its context and bitmap, the component state, the list of
  strings handed to \<^verbatim>\<open>onSave\<close>, and the exceptions that left a handler.
  JavaScript numbers are idealised as reals.
\<close>

subsection \<open>Pointer events and coordinates\<close>

type_synonym point = "real \<times> real"

text \<open>
  A handler receives a \<^verbatim>\<open>React.MouseEvent\<close> (with \<^verbatim>\<open>clientX\<close>, \<^verbatim>\<open>clientY\<close>) or a
  \<^verbatim>\<open>React.TouchEvent\<close> (with the list \<^verbatim>\<open>touches\<close>, each touch a client point).
\<close>

datatype pointer_event = MouseEv real real | TouchEv "point list"

datatype error = TypeError

subsection \<open>The 2D context and the canvas element\<close>

record context2d =
  ctx_scale :: "real \<times> real"
  lineCap :: string
  lineJoin :: string
  strokeStyle :: string
  ctx_lineWidth :: real
  path :: "point list list"

text \<open>
  The bitmap is kept as the sequence of painting calls that reached it since it was
  last reset; each entry records everything the call read from the context.
\<close>

datatype paint =
    Stroke "point list list" string real string string "real \<times> real"
  | ClearRect real real real real "real \<times> real"
  | DrawImage string real real real real "real \<times> real"

record canvas_el =
  cv_width :: nat
  cv_height :: nat
  rect_left :: real
  rect_top :: real
  ctx2d :: "context2d option"
  painted :: "paint list"

record container_el =
  clientWidth :: nat
  clientHeight :: nat

text \<open>The state of a context right after the canvas is created or resized.\<close>

definition default_ctx :: context2d where
  "default_ctx =
     \<lparr>ctx_scale = (1, 1), lineCap = ''butt'', lineJoin = ''miter'',
      strokeStyle = ''#000000'', ctx_lineWidth = 1, path = []\<rparr>"

definition beginPath :: "context2d \<Rightarrow> context2d" where
  "beginPath c = c\<lparr>path := []\<rparr>"

definition moveTo :: "context2d \<Rightarrow> real \<Rightarrow> real \<Rightarrow> context2d" where
  "moveTo c x y = c\<lparr>path := path c @ [[(x, y)]]\<rparr>"

text \<open>\<^verbatim>\<open>lineTo\<close> on a path with no subpath starts one at the point, as \<^verbatim>\<open>moveTo\<close> does.\<close>

definition lineTo :: "context2d \<Rightarrow> real \<Rightarrow> real \<Rightarrow> context2d" where
  "lineTo c x y =
     (if path c = [] then c\<lparr>path := [[(x, y)]]\<rparr>
      else c\<lparr>path := butlast (path c) @ [last (path c) @ [(x, y)]]\<rparr>)"

text \<open>
  The component assigns to \<^verbatim>\<open>strokeStyle\<close> only \<^verbatim>\<open>'#ffffff'\<close> and the value of
  \<^verbatim>\<open>color\<close>, which is one of the palette's hex colours in every state the component
  reaches; these are valid colours, and the setter stores the string.
  A \<^verbatim>\<open>lineWidth\<close> that is not positive is ignored by the context.
\<close>

definition set_strokeStyle :: "context2d \<Rightarrow> string \<Rightarrow> context2d" where
  "set_strokeStyle c v = c\<lparr>strokeStyle := v\<rparr>"

definition set_lineWidth :: "context2d \<Rightarrow> real \<Rightarrow> context2d" where
  "set_lineWidth c v = (if 0 < v then c\<lparr>ctx_lineWidth := v\<rparr> else c)"

definition scale_ctx :: "context2d \<Rightarrow> real \<Rightarrow> real \<Rightarrow> context2d" where
  "scale_ctx c sx sy = c\<lparr>ctx_scale := (fst (ctx_scale c) * sx, snd (ctx_scale c) * sy)\<rparr>"

definition stroke :: "context2d \<Rightarrow> canvas_el \<Rightarrow> canvas_el" where
  "stroke c canvas =
     canvas\<lparr>painted := painted canvas @
       [Stroke (path c) (strokeStyle c) (ctx_lineWidth c) (lineCap c) (lineJoin c) (ctx_scale c)]\<rparr>"

definition clearRect :: "context2d \<Rightarrow> canvas_el \<Rightarrow> real \<Rightarrow> real \<Rightarrow> real \<Rightarrow> real \<Rightarrow> canvas_el" where
  "clearRect c canvas x y w h =
     canvas\<lparr>painted := painted canvas @ [ClearRect x y w h (ctx_scale c)]\<rparr>"

definition drawImage :: "context2d \<Rightarrow> canvas_el \<Rightarrow> string \<Rightarrow> real \<Rightarrow> real \<Rightarrow> real \<Rightarrow> real \<Rightarrow> canvas_el" where
  "drawImage c canvas img x y w h =
     canvas\<lparr>painted := painted canvas @ [DrawImage img x y w h (ctx_scale c)]\<rparr>"

text \<open>
  Assigning a number to \<^verbatim>\<open>canvas.width\<close> converts it to an unsigned long (truncate,
  then modulo \<open>2 ^ 32\<close>); a value above \<open>2147483647\<close> falls back to the attribute's
  default. The assignment resets the bitmap and the context state.
\<close>

definition to_unsigned_long :: "real \<Rightarrow> nat" where
  "to_unsigned_long x = nat ((if x < 0 then - \<lfloor>- x\<rfloor> else \<lfloor>x\<rfloor>) mod 2 ^ 32)"

definition reflect_dim :: "nat \<Rightarrow> real \<Rightarrow> nat" where
  "reflect_dim dflt x =
     (let v = to_unsigned_long x in if v \<le> 2147483647 then v else dflt)"

definition reset_canvas :: "canvas_el \<Rightarrow> canvas_el" where
  "reset_canvas canvas =
     canvas\<lparr>ctx2d := map_option (\<lambda>_. default_ctx) (ctx2d canvas), painted := []\<rparr>"

definition set_width :: "canvas_el \<Rightarrow> real \<Rightarrow> canvas_el" where
  "set_width canvas v = reset_canvas (canvas\<lparr>cv_width := reflect_dim 300 v\<rparr>)"

definition set_height :: "canvas_el \<Rightarrow> real \<Rightarrow> canvas_el" where
  "set_height canvas v = reset_canvas (canvas\<lparr>cv_height := reflect_dim 150 v\<rparr>)"

text \<open>
  \<^verbatim>\<open>canvas.toDataURL('image/png')\<close> serialises the whole bitmap, \<^verbatim>\<open>canvas.width\<close> by
  \<^verbatim>\<open>canvas.height\<close> pixels. The PNG serialiser with its base64 step belongs to the
  browser and is the parameter \<open>png\<close>; a bitmap without pixels gives \<^verbatim>\<open>data:,\<close>.
  The only image ever drawn into the canvas is \<^verbatim>\<open>initialImage\<close>, a snapshot saved
  earlier and so a data URL: the bitmap stays origin-clean and the call does not throw.
\<close>

record bitmap =
  bm_width :: nat
  bm_height :: nat
  bm_paints :: "paint list"

definition canvas_bitmap :: "canvas_el \<Rightarrow> bitmap" where
  "canvas_bitmap canvas =
     \<lparr>bm_width = cv_width canvas, bm_height = cv_height canvas, bm_paints = painted canvas\<rparr>"

definition toDataURL :: "(bitmap \<Rightarrow> string) \<Rightarrow> canvas_el \<Rightarrow> string" where
  "toDataURL png canvas =
     (if cv_width canvas = 0 \<or> cv_height canvas = 0 then ''data:,''
      else ''data:image/png;base64,'' @ png (canvas_bitmap canvas))"

subsection \<open>Component state\<close>

record canvas_state =
  readOnly :: bool
  canvasRef :: "canvas_el option"
  containerRef :: "container_el option"
  devicePixelRatio :: real
  isDrawing :: bool
  color :: string
  lineWidth :: real
  isEraser :: bool
  loading :: "string list"
  saved :: "string list"
  thrown :: "error list"

text \<open>
  \<open>loading\<close> holds the images whose \<^verbatim>\<open>onload\<close> has not fired yet, \<open>saved\<close> the
  arguments of the calls of \<^verbatim>\<open>onSave\<close>, oldest first, and \<open>thrown\<close> the exceptions
  that escaped a handler. A state update made before a handler throws is still applied,
  and every update is applied before the next event is handled. The \<^verbatim>\<open>useState\<close>
  defaults give the initial state.
\<close>

definition initial_state ::
  "bool \<Rightarrow> canvas_el option \<Rightarrow> container_el option \<Rightarrow> real \<Rightarrow> canvas_state" where
  "initial_state ro canvas container dpr =
     \<lparr>readOnly = ro, canvasRef = canvas, containerRef = container,
      devicePixelRatio = dpr, isDrawing = False, color = ''#1e1b4b'', lineWidth = 3,
      isEraser = False, loading = [], saved = [], thrown = []\<rparr>"

definition onSave :: "canvas_state \<Rightarrow> string \<Rightarrow> canvas_state" where
  "onSave s dataUrl = s\<lparr>saved := saved s @ [dataUrl]\<rparr>"

text \<open>\<^verbatim>\<open>window.devicePixelRatio || 1\<close>\<close>

definition dpr_or_1 :: "canvas_state \<Rightarrow> real" where
  "dpr_or_1 s = (if devicePixelRatio s = 0 then 1 else devicePixelRatio s)"

subsection \<open>The mount effect\<close>

text \<open>
  \<^verbatim>\<open>if (initialImage)\<close> holds for a defined, non-empty string. The image is decoded
  later; \<open>imgOnload\<close> is the callback, which draws through the context and the
  container captured by the effect. The product of the client size and the pixel
  density is the real one; it is the double product of the source whenever that is
  exact, as it is for every whole density, and the properties of the canvas's
  dimensions below are stated for whole densities.
\<close>

definition initCanvas :: "string option \<Rightarrow> canvas_state \<Rightarrow> canvas_state" where
  "initCanvas initialImage s =
     (case canvasRef s of None \<Rightarrow> s | Some canvas \<Rightarrow>
      (case containerRef s of None \<Rightarrow> s | Some container \<Rightarrow>
        let dpr = dpr_or_1 s;
            canvas1 = set_width canvas (real (clientWidth container) * dpr);
            canvas2 = set_height canvas1 (real (clientHeight container) * dpr)
        in (case ctx2d canvas2 of
              None \<Rightarrow> s\<lparr>canvasRef := Some canvas2\<rparr>
            | Some ctx \<Rightarrow>
                let ctx1 = scale_ctx ctx dpr dpr;
                    ctx2 = ctx1\<lparr>lineCap := ''round''\<rparr>;
                    ctx3 = ctx2\<lparr>lineJoin := ''round''\<rparr>;
                    s1 = s\<lparr>canvasRef := Some (canvas2\<lparr>ctx2d := Some ctx3\<rparr>)\<rparr>
                in (case initialImage of
                      None \<Rightarrow> s1
                    | Some src \<Rightarrow> if src = [] then s1 else s1\<lparr>loading := loading s1 @ [src]\<rparr>))))"

definition imgOnload :: "canvas_state \<Rightarrow> canvas_state" where
  "imgOnload s =
     (case loading s of [] \<Rightarrow> s | img # rest \<Rightarrow>
      (case canvasRef s of None \<Rightarrow> s\<lparr>loading := rest\<rparr> | Some canvas \<Rightarrow>
       (case containerRef s of None \<Rightarrow> s\<lparr>loading := rest\<rparr> | Some container \<Rightarrow>
        (case ctx2d canvas of None \<Rightarrow> s\<lparr>loading := rest\<rparr> | Some ctx \<Rightarrow>
           s\<lparr>canvasRef := Some (drawImage ctx canvas img 0 0
                  (real (clientWidth container)) (real (clientHeight container))),
             loading := rest\<rparr>))))"

subsection \<open>The handlers\<close>

definition getCoordinates :: "pointer_event \<Rightarrow> canvas_el \<Rightarrow> error + point" where
  "getCoordinates e canvas =
     (case e of
        TouchEv touches \<Rightarrow>
          (case touches of
             [] \<Rightarrow> Inl TypeError
           | t # _ \<Rightarrow> Inr (fst t - rect_left canvas, snd t - rect_top canvas))
      | MouseEv clientX clientY \<Rightarrow>
          Inr (clientX - rect_left canvas, clientY - rect_top canvas))"

definition startDrawing :: "canvas_state \<Rightarrow> pointer_event \<Rightarrow> canvas_state" where
  "startDrawing s e =
     (if readOnly s then s else
      (case canvasRef s of None \<Rightarrow> s | Some canvas \<Rightarrow>
       (case ctx2d canvas of None \<Rightarrow> s | Some ctx \<Rightarrow>
          let s1 = s\<lparr>isDrawing := True\<rparr> in
          (case getCoordinates e canvas of
             Inl err \<Rightarrow> s1\<lparr>thrown := thrown s1 @ [err]\<rparr>
           | Inr (x, y) \<Rightarrow>
               let ctx1 = beginPath ctx;
                   ctx2 = moveTo ctx1 x y;
                   ctx3 = set_strokeStyle ctx2 (if isEraser s then ''#ffffff'' else color s);
                   ctx4 = set_lineWidth ctx3 (if isEraser s then 20 else lineWidth s)
               in s1\<lparr>canvasRef := Some (canvas\<lparr>ctx2d := Some ctx4\<rparr>)\<rparr>))))"

definition draw :: "canvas_state \<Rightarrow> pointer_event \<Rightarrow> canvas_state" where
  "draw s e =
     (if \<not> isDrawing s \<or> readOnly s then s else
      (case canvasRef s of None \<Rightarrow> s | Some canvas \<Rightarrow>
       (case ctx2d canvas of None \<Rightarrow> s | Some ctx \<Rightarrow>
          (case getCoordinates e canvas of
             Inl err \<Rightarrow> s\<lparr>thrown := thrown s @ [err]\<rparr>
           | Inr (x, y) \<Rightarrow>
               let ctx1 = lineTo ctx x y
               in s\<lparr>canvasRef := Some (stroke ctx1 (canvas\<lparr>ctx2d := Some ctx1\<rparr>))\<rparr>))))"

definition stopDrawing :: "(bitmap \<Rightarrow> string) \<Rightarrow> canvas_state \<Rightarrow> canvas_state" where
  "stopDrawing png s =
     (if readOnly s then s else
      let s1 = s\<lparr>isDrawing := False\<rparr> in
      (case canvasRef s1 of None \<Rightarrow> s1
       | Some canvas \<Rightarrow> onSave s1 (toDataURL png canvas)))"

definition clearCanvas :: "canvas_state \<Rightarrow> canvas_state" where
  "clearCanvas s =
     (case canvasRef s of None \<Rightarrow> s | Some canvas \<Rightarrow>
      (case ctx2d canvas of None \<Rightarrow> s | Some ctx \<Rightarrow>
         let dpr = dpr_or_1 s;
             canvas1 = clearRect ctx canvas 0 0
                         (real (cv_width canvas) / dpr) (real (cv_height canvas) / dpr)
         in onSave (s\<lparr>canvasRef := Some canvas1\<rparr>) ''''))"

subsection \<open>Event bindings and the toolbar\<close>

datatype swatch = Indigo | Red | Blue

fun swatch_color :: "swatch \<Rightarrow> string" where
  "swatch_color Indigo = ''#1e1b4b''"
| "swatch_color Red = ''#dc2626''"
| "swatch_color Blue = ''#2563eb''"

definition palette :: "string list" where
  "palette = map swatch_color [Indigo, Red, Blue]"

datatype action =
    MouseDown real real
  | MouseMove real real
  | MouseUp
  | MouseLeave
  | TouchStart "point list"
  | TouchMove "point list"
  | TouchEnd
  | ClickPencil
  | ClickSwatch swatch
  | ClickEraser
  | ClickTrash
  | ImageLoaded
  | InitialImageChanged "string option"

text \<open>
  The canvas binds \<^verbatim>\<open>onMouseDown\<close> and \<^verbatim>\<open>onTouchStart\<close> to \<open>startDrawing\<close>,
  \<^verbatim>\<open>onMouseMove\<close> and \<^verbatim>\<open>onTouchMove\<close> to \<open>draw\<close>, and \<^verbatim>\<open>onMouseUp\<close>,
  \<^verbatim>\<open>onMouseLeave\<close> and \<^verbatim>\<open>onTouchEnd\<close> to \<open>stopDrawing\<close>. The toolbar is rendered
  only when \<^verbatim>\<open>readOnly\<close> is false, so its buttons cannot be clicked otherwise.
  The mount effect depends on \<^verbatim>\<open>initialImage\<close> and runs again when the prop changes.
\<close>

fun step :: "(bitmap \<Rightarrow> string) \<Rightarrow> canvas_state \<Rightarrow> action \<Rightarrow> canvas_state" where
  "step png s (MouseDown x y) = startDrawing s (MouseEv x y)"
| "step png s (MouseMove x y) = draw s (MouseEv x y)"
| "step png s MouseUp = stopDrawing png s"
| "step png s MouseLeave = stopDrawing png s"
| "step png s (TouchStart ts) = startDrawing s (TouchEv ts)"
| "step png s (TouchMove ts) = draw s (TouchEv ts)"
| "step png s TouchEnd = stopDrawing png s"
| "step png s ClickPencil = (if readOnly s then s else s\<lparr>isEraser := False\<rparr>)"
| "step png s (ClickSwatch c) =
     (if readOnly s then s else s\<lparr>color := swatch_color c, isEraser := False\<rparr>)"
| "step png s ClickEraser = (if readOnly s then s else s\<lparr>isEraser := True\<rparr>)"
| "step png s ClickTrash = (if readOnly s then s else clearCanvas s)"
| "step png s ImageLoaded = imgOnload s"
| "step png s (InitialImageChanged img) = initCanvas img s"

fun run :: "(bitmap \<Rightarrow> string) \<Rightarrow> canvas_state \<Rightarrow> action list \<Rightarrow> canvas_state" where
  "run png s [] = s"
| "run png s (a # as) = run png (step png s a) as"

fun is_down :: "action \<Rightarrow> bool" where
  "is_down (MouseDown x y) = True"
| "is_down (TouchStart ts) = True"
| "is_down _ = False"

fun is_move :: "action \<Rightarrow> bool" where
  "is_move (MouseMove x y) = True"
| "is_move (TouchMove ts) = True"
| "is_move _ = False"

fun is_up :: "action \<Rightarrow> bool" where
  "is_up MouseUp = True"
| "is_up TouchEnd = True"
| "is_up _ = False"

text \<open>
  A down or move event that carries a point: any mouse event, a touch event with at
  least one touch.
\<close>

fun carries_point :: "action \<Rightarrow> bool" where
  "carries_point (MouseDown x y) = True"
| "carries_point (MouseMove x y) = True"
| "carries_point (TouchStart ts) = (ts \<noteq> [])"
| "carries_point (TouchMove ts) = (ts \<noteq> [])"
| "carries_point _ = False"

text \<open>The three events bound to \<open>stopDrawing\<close>, and the events of the canvas element.\<close>

fun ends_gesture :: "action \<Rightarrow> bool" where
  "ends_gesture MouseUp = True"
| "ends_gesture MouseLeave = True"
| "ends_gesture TouchEnd = True"
| "ends_gesture _ = False"

fun is_pointer :: "action \<Rightarrow> bool" where
  "is_pointer ClickPencil = False"
| "is_pointer (ClickSwatch c) = False"
| "is_pointer ClickEraser = False"
| "is_pointer ClickTrash = False"
| "is_pointer ImageLoaded = False"
| "is_pointer (InitialImageChanged img) = False"
| "is_pointer _ = True"

fun is_swatch :: "action \<Rightarrow> bool" where
  "is_swatch (ClickSwatch c) = True"
| "is_swatch _ = False"

subsection \<open>Observations of a state\<close>

text \<open>
  The painting calls that reached the bitmap, the stroke colour and width the context
  holds, and the dimensions of the canvas.
\<close>

definition painted_of :: "canvas_state \<Rightarrow> paint list" where
  "painted_of s = (case canvasRef s of None \<Rightarrow> [] | Some canvas \<Rightarrow> painted canvas)"

fun stroke_with :: "string \<Rightarrow> real \<Rightarrow> paint \<Rightarrow> bool" where
  "stroke_with c w (Stroke p style width cap join sc) = (style = c \<and> width = w)"
| "stroke_with c w _ = False"

definition ctx_style :: "canvas_state \<Rightarrow> (string \<times> real) option" where
  "ctx_style s =
     (case canvasRef s of None \<Rightarrow> None
      | Some canvas \<Rightarrow> map_option (\<lambda>c. (strokeStyle c, ctx_lineWidth c)) (ctx2d canvas))"


subsection \<open>Concrete inputs for the closed examples\<close>

text \<open>
  A stand-in for the browser's PNG serialiser (the theorems hold for every serialiser),
  a fresh canvas element with a 2D context whose top-left corner is at the screen point
  \<open>(x0, y0)\<close>, a component mounted in a 100 by 50 container, and the same
  component on a canvas whose 2D context cannot be obtained.
\<close>

definition sample_png :: "bitmap \<Rightarrow> string" where
  "sample_png b = ''iVBORw0KGgo=''"


definition new_canvas :: "real \<Rightarrow> real \<Rightarrow> canvas_el" where
  "new_canvas x0 y0 =
     \<lparr>cv_width = 300, cv_height = 150, rect_left = x0, rect_top = y0,
      ctx2d = Some default_ctx, painted = []\<rparr>"

definition mounted :: "bool \<Rightarrow> real \<Rightarrow> canvas_state" where
  "mounted ro dpr =
     initCanvas None
       (initial_state ro (Some (new_canvas 50 80))
          (Some \<lparr>clientWidth = 100, clientHeight = 50\<rparr>) dpr)"

definition no_context :: canvas_state where
  "no_context =
     initCanvas None
       (initial_state False (Some ((new_canvas 50 80)\<lparr>ctx2d := None\<rparr>))
          (Some \<lparr>clientWidth = 100, clientHeight = 50\<rparr>) 1)"

section \<open>Properties\<close>

subsection \<open>Evaluation and frame lemmas\<close>

lemmas mount_defs = mounted_def initCanvas_def initial_state_def new_canvas_def dpr_or_1_def
  set_width_def set_height_def reset_canvas_def reflect_dim_def to_unsigned_long_def
  default_ctx_def scale_ctx_def Let_def

lemmas handler_defs = startDrawing_def draw_def stopDrawing_def clearCanvas_def
  getCoordinates_def onSave_def toDataURL_def canvas_bitmap_def stroke_def clearRect_def
  lineTo_def moveTo_def beginPath_def set_strokeStyle_def set_lineWidth_def

lemma run_append: "run png s (xs @ ys) = run png (run png s xs) ys"
  by (induction xs arbitrary: s) simp_all

lemma startDrawing_frame:
  "saved (startDrawing s e) = saved s \<and> readOnly (startDrawing s e) = readOnly s
   \<and> (canvasRef (startDrawing s e) = None) = (canvasRef s = None)"
  by (simp add: startDrawing_def Let_def split: option.split sum.split prod.split)

lemma draw_frame:
  "saved (draw s e) = saved s \<and> readOnly (draw s e) = readOnly s
   \<and> (canvasRef (draw s e) = None) = (canvasRef s = None)"
  by (simp add: draw_def Let_def split: option.split sum.split prod.split)

lemma stopDrawing_frame:
  "readOnly (stopDrawing png s) = readOnly s \<and> canvasRef (stopDrawing png s) = canvasRef s
   \<and> thrown (stopDrawing png s) = thrown s"
  by (simp add: stopDrawing_def onSave_def Let_def split: option.split)

lemma stopDrawing_emits:
  "\<not> readOnly s \<Longrightarrow> canvasRef s = Some canvas \<Longrightarrow>
   saved (stopDrawing png s) = saved s @ [toDataURL png canvas] \<and> \<not> isDrawing (stopDrawing png s)"
  by (simp add: stopDrawing_def onSave_def Let_def)

lemma quiet_step:
  "is_down a \<or> is_move a \<Longrightarrow>
   saved (step png s a) = saved s \<and> readOnly (step png s a) = readOnly s
   \<and> (canvasRef (step png s a) = None) = (canvasRef s = None)"
  by (cases a) (simp_all add: startDrawing_frame draw_frame)

lemma quiet_run:
  "\<forall>a\<in>set as. is_down a \<or> is_move a \<Longrightarrow>
   saved (run png s as) = saved s \<and> readOnly (run png s as) = readOnly s
   \<and> (canvasRef (run png s as) = None) = (canvasRef s = None)"
proof (induction as arbitrary: s)
  case Nil
  show ?case by simp
next
  case (Cons a as)
  from Cons.prems have a: "is_down a \<or> is_move a" and rest: "\<forall>b\<in>set as. is_down b \<or> is_move b"
    by simp_all
  show ?case using Cons.IH [OF rest, of "step png s a"] quiet_step [OF a, of png s] by simp
qed

lemma up_step: "is_up u \<Longrightarrow> step png s u = stopDrawing png s"
  by (cases u) simp_all

lemma readOnly_step: "readOnly s \<Longrightarrow> is_pointer a \<Longrightarrow> step png s a = s"
  by (cases a) (simp_all add: startDrawing_def draw_def stopDrawing_def)

lemma readOnly_run: "readOnly s \<Longrightarrow> \<forall>a\<in>set as. is_pointer a \<Longrightarrow> run png s as = s"
  by (induction as) (simp_all add: readOnly_step)

lemma mounted_canvas:
  "canvasRef (mounted ro 1) = Some
     \<lparr>cv_width = 100, cv_height = 50, rect_left = 50, rect_top = 80,
      ctx2d = Some \<lparr>ctx_scale = (1, 1), lineCap = ''round'', lineJoin = ''round'',
                     strokeStyle = ''#000000'', ctx_lineWidth = 1, path = []\<rparr>,
      painted = []\<rparr>"
  by (simp add: mount_defs)

lemma ends_step: "ends_gesture a \<Longrightarrow> step png s a = stopDrawing png s"
  by (cases a) simp_all

lemma toDataURL_nonempty: "toDataURL png canvas \<noteq> ''''"
  by (simp add: toDataURL_def)

lemma clearCanvas_emits:
  "canvasRef s = Some canvas \<Longrightarrow> ctx2d canvas = Some ctx \<Longrightarrow>
   saved (clearCanvas s) = saved s @ [''''] \<and> readOnly (clearCanvas s) = readOnly s
   \<and> (\<exists>canvas'. canvasRef (clearCanvas s) = Some canvas')"
  by (simp add: clearCanvas_def onSave_def Let_def)

subsection \<open>What a stroke paints\<close>

lemma draw_paints:
  assumes "ctx_style s = Some (c, w)" and "isDrawing s" and "\<not> readOnly s"
  shows "ctx_style (draw s e) = Some (c, w) \<and> isDrawing (draw s e) \<and> \<not> readOnly (draw s e)
     \<and> (\<exists>ps. painted_of (draw s e) = painted_of s @ ps
            \<and> (\<forall>p\<in>set ps. stroke_with c w p)
            \<and> length ps = (if e = TouchEv [] then 0 else 1))"
proof -
  from assms(1) obtain canvas ctx where cv: "canvasRef s = Some canvas"
    and cx: "ctx2d canvas = Some ctx" and st: "strokeStyle ctx = c" "ctx_lineWidth ctx = w"
    by (auto simp: ctx_style_def split: option.splits)
  show ?thesis
  proof (cases "getCoordinates e canvas")
    case (Inl err)
    then have "e = TouchEv []"
      by (auto simp: getCoordinates_def split: pointer_event.splits list.splits)
    moreover have "draw s e = s\<lparr>thrown := thrown s @ [err]\<rparr>"
      using assms(2,3) cv cx Inl by (simp add: draw_def)
    ultimately show ?thesis using assms by (simp add: ctx_style_def painted_of_def)
  next
    case (Inr p)
    then have ne: "e \<noteq> TouchEv []" by (auto simp: getCoordinates_def)
    obtain x y where p: "p = (x, y)" by (cases p)
    have d: "draw s e =
        s\<lparr>canvasRef := Some (stroke (lineTo ctx x y) (canvas\<lparr>ctx2d := Some (lineTo ctx x y)\<rparr>))\<rparr>"
      using assms(2,3) cv cx Inr p by (simp add: draw_def Let_def)
    have "painted_of (draw s e) = painted_of s @
        [Stroke (path (lineTo ctx x y)) c w (lineCap ctx) (lineJoin ctx) (ctx_scale ctx)]"
      using cv st by (simp add: d painted_of_def stroke_def lineTo_def)
    moreover have "ctx_style (draw s e) = Some (c, w)"
      using st by (simp add: d ctx_style_def stroke_def lineTo_def)
    ultimately show ?thesis using assms(2,3) ne by (simp add: d)
  qed
qed

lemma move_paints:
  assumes "ctx_style s = Some (c, w)" and "isDrawing s" and "\<not> readOnly s" and "is_move m"
  shows "ctx_style (step png s m) = Some (c, w) \<and> isDrawing (step png s m)
     \<and> \<not> readOnly (step png s m)
     \<and> (\<exists>ps. painted_of (step png s m) = painted_of s @ ps
            \<and> (\<forall>p\<in>set ps. stroke_with c w p)
            \<and> length ps = (if carries_point m then 1 else 0))"
proof (cases m)
  case (MouseMove x y)
  show ?thesis using draw_paints [OF assms(1-3), of "MouseEv x y"] MouseMove by simp
next
  case (TouchMove ts)
  show ?thesis using draw_paints [OF assms(1-3), of "TouchEv ts"] TouchMove
    by (cases ts) auto
qed (use assms(4) in simp_all)

lemma moves_paint:
  assumes "ctx_style s = Some (c, w)" and "isDrawing s" and "\<not> readOnly s"
    and "\<forall>m\<in>set ms. is_move m"
  shows "\<exists>ps. painted_of (run png s ms) = painted_of s @ ps
            \<and> (\<forall>p\<in>set ps. stroke_with c w p)
            \<and> length ps = length (filter carries_point ms)"
  using assms
proof (induction ms arbitrary: s)
  case Nil
  show ?case by simp
next
  case (Cons m ms)
  from Cons.prems have m: "is_move m" and rest: "\<forall>b\<in>set ms. is_move b" by simp_all
  from move_paints [OF Cons.prems(1-3) m, of png]
  obtain ps where st: "ctx_style (step png s m) = Some (c, w)" "isDrawing (step png s m)"
      "\<not> readOnly (step png s m)"
    and ps: "painted_of (step png s m) = painted_of s @ ps" "\<forall>p\<in>set ps. stroke_with c w p"
      "length ps = (if carries_point m then 1 else 0)"
    by blast
  from Cons.IH [OF st rest]
  obtain qs where qs: "painted_of (run png (step png s m) ms) = painted_of (step png s m) @ qs"
      "\<forall>p\<in>set qs. stroke_with c w p" "length qs = length (filter carries_point ms)"
    by blast
  have "painted_of (run png s (m # ms)) = painted_of s @ (ps @ qs)"
    using ps(1) qs(1) by simp
  moreover have "\<forall>p\<in>set (ps @ qs). stroke_with c w p" using ps(2) qs(2) by auto
  moreover have "length (ps @ qs) = length (filter carries_point (m # ms))"
    using ps(3) qs(3) by simp
  ultimately show ?case by blast
qed

lemma down_sets_style:
  assumes "\<not> readOnly s" and "canvasRef s = Some canvas" and "ctx2d canvas = Some ctx"
    and "is_down d" and "carries_point d"
  shows "ctx_style (step png s d) =
           Some (if isEraser s then ''#ffffff'' else color s,
                 if isEraser s then 20
                 else if 0 < lineWidth s then lineWidth s else ctx_lineWidth ctx)
     \<and> isDrawing (step png s d) \<and> \<not> readOnly (step png s d)
     \<and> painted_of (step png s d) = painted_of s"
proof (cases d)
  case (MouseDown x y)
  show ?thesis using assms(1-3) MouseDown
    by (simp add: startDrawing_def getCoordinates_def ctx_style_def painted_of_def Let_def
          set_lineWidth_def set_strokeStyle_def moveTo_def beginPath_def)
next
  case (TouchStart ts)
  show ?thesis using assms(1-3,5) TouchStart
    by (cases ts) (simp_all add: startDrawing_def getCoordinates_def ctx_style_def painted_of_def
          Let_def set_lineWidth_def set_strokeStyle_def moveTo_def beginPath_def)
qed (use assms(4) in simp_all)

lemma stroke_paints:
  assumes "\<not> readOnly s" and "canvasRef s = Some canvas" and "ctx2d canvas = Some ctx"
    and "is_down d" and "carries_point d" and "\<forall>m\<in>set ms. is_move m"
    and "isEraser s \<or> 0 < lineWidth s"
  shows "\<exists>ps. painted_of (run png s (d # ms)) = painted_of s @ ps
            \<and> (\<forall>p\<in>set ps. stroke_with (if isEraser s then ''#ffffff'' else color s)
                                       (if isEraser s then 20 else lineWidth s) p)
            \<and> length ps = length (filter carries_point ms)"
proof -
  from down_sets_style [OF assms(1-5), of png] assms(7)
  have st: "ctx_style (step png s d) = Some (if isEraser s then ''#ffffff'' else color s,
                 if isEraser s then 20 else lineWidth s)"
    and dr: "isDrawing (step png s d)" and ro: "\<not> readOnly (step png s d)"
    and pt: "painted_of (step png s d) = painted_of s"
    by auto
  from moves_paint [OF st dr ro assms(6), of png] pt show ?thesis by simp
qed

subsection \<open>What no action changes\<close>

lemma initCanvas_lineWidth: "lineWidth (initCanvas img s) = lineWidth s"
  by (simp add: initCanvas_def Let_def split: option.split)

lemma step_lineWidth: "lineWidth (step png s a) = lineWidth s"
  by (cases a)
     (simp_all add: startDrawing_def draw_def stopDrawing_def clearCanvas_def imgOnload_def
        initCanvas_lineWidth onSave_def Let_def
        split: option.split sum.split prod.split list.split)

lemma run_lineWidth: "lineWidth (run png s as) = lineWidth s"
  by (induction as arbitrary: s) (simp_all add: step_lineWidth)

lemma initCanvas_color: "color (initCanvas img s) = color s"
  by (simp add: initCanvas_def Let_def split: option.split)

lemma step_color: "color s \<in> set palette \<Longrightarrow> color (step png s a) \<in> set palette"
proof (cases a)
  case (ClickSwatch c)
  assume "color s \<in> set palette"
  then show ?thesis using ClickSwatch by (cases c) (simp_all add: palette_def)
qed (simp_all add: startDrawing_def draw_def stopDrawing_def clearCanvas_def imgOnload_def
        initCanvas_color onSave_def Let_def
        split: option.split sum.split prod.split list.split)

lemma run_color: "color s \<in> set palette \<Longrightarrow> color (run png s as) \<in> set palette"
  by (induction as arbitrary: s) (simp_all add: step_color)




lemma step_readOnly: "readOnly (step png s a) = readOnly s"
  by (cases a)
     (simp_all add: startDrawing_def draw_def stopDrawing_def clearCanvas_def imgOnload_def
        initCanvas_def onSave_def Let_def
        split: option.split sum.split prod.split list.split)

lemma run_readOnly: "readOnly (run png s as) = readOnly s"
  by (induction as arbitrary: s) (simp_all add: step_readOnly)

lemma step_keeps_color: "\<not> is_swatch a \<Longrightarrow> color (step png s a) = color s"
  by (cases a)
     (simp_all add: startDrawing_def draw_def stopDrawing_def clearCanvas_def imgOnload_def
        initCanvas_color onSave_def Let_def
        split: option.split sum.split prod.split list.split)

lemma run_keeps_color: "\<forall>a\<in>set as. \<not> is_swatch a \<Longrightarrow> color (run png s as) = color s"
  by (induction as arbitrary: s) (simp_all add: step_keeps_color)

lemma initCanvas_available: "ctx_style s \<noteq> None \<Longrightarrow> ctx_style (initCanvas img s) \<noteq> None"
  by (auto simp: ctx_style_def initCanvas_def set_width_def set_height_def reset_canvas_def
        Let_def split: option.splits)

lemma step_available: "ctx_style s \<noteq> None \<Longrightarrow> ctx_style (step png s a) \<noteq> None"
proof (cases a)
  case (InitialImageChanged img)
  assume "ctx_style s \<noteq> None"
  then show ?thesis using InitialImageChanged by (simp add: initCanvas_available)
qed (auto simp: ctx_style_def startDrawing_def draw_def stopDrawing_def clearCanvas_def
        imgOnload_def onSave_def stroke_def clearRect_def drawImage_def Let_def
        split: option.splits sum.splits prod.splits list.splits)

lemma run_available: "ctx_style s \<noteq> None \<Longrightarrow> ctx_style (run png s as) \<noteq> None"
proof (induction as arbitrary: s)
  case Nil
  then show ?case by simp
next
  case (Cons a as)
  from Cons.prems have "ctx_style (step png s a) \<noteq> None" by (rule step_available)
  then have "ctx_style (run png (step png s a) as) \<noteq> None" by (rule Cons.IH)
  then show ?case by simp
qed





lemma pen_stroke_after:
  assumes ro: "\<not> readOnly s" and av: "ctx_style s \<noteq> None" and lw: "lineWidth s = 3"
    and es: "\<forall>a\<in>set es. \<not> is_swatch a"
    and d: "is_down d" "carries_point d" and ms: "\<forall>m\<in>set ms. is_move m"
  shows "\<exists>ps. painted_of (run png s (ClickSwatch c # ClickEraser # es @ ClickPencil # d # ms))
               = painted_of (run png s (ClickSwatch c # ClickEraser # es @ [ClickPencil])) @ ps
            \<and> (\<forall>p\<in>set ps. stroke_with (swatch_color c) 3 p)
            \<and> length ps = length (filter carries_point ms)"
proof -
  define s1 where "s1 = step png s (ClickSwatch c)"
  define s2 where "s2 = step png s1 ClickEraser"
  define u where "u = run png s2 es"
  define t where "t = step png u ClickPencil"
  have pre: "run png s (ClickSwatch c # ClickEraser # es @ [ClickPencil]) = t"
    by (simp add: run_append s1_def s2_def u_def t_def)
  have full: "run png s (ClickSwatch c # ClickEraser # es @ ClickPencil # d # ms)
                = run png t (d # ms)"
    using run_append [of png s2 es "ClickPencil # d # ms"]
    by (simp add: s1_def s2_def u_def t_def)
  have "color s1 = swatch_color c" using ro by (simp add: s1_def)
  then have "color s2 = swatch_color c" by (simp add: s2_def step_keeps_color)
  then have u_col: "color u = swatch_color c" using es by (simp add: u_def run_keeps_color)
  have u_ro: "\<not> readOnly u" using ro by (simp add: u_def s2_def s1_def run_readOnly step_readOnly)
  have t_eq: "t = u\<lparr>isEraser := False\<rparr>" using u_ro by (simp add: t_def)
  have t_ro: "\<not> readOnly t" using u_ro by (simp add: t_eq)
  have t_col: "color t = swatch_color c" using u_col by (simp add: t_eq)
  have "lineWidth t = lineWidth s"
    by (simp add: t_def u_def s2_def s1_def run_lineWidth step_lineWidth)
  then have t_lw: "lineWidth t = 3" using lw by simp
  have t_er: "\<not> isEraser t" by (simp add: t_eq)
  have "ctx_style t \<noteq> None"
    unfolding t_def u_def s2_def s1_def
    by (intro step_available run_available) (rule av)
  then obtain canvas ctx where cv: "canvasRef t = Some canvas" and cx: "ctx2d canvas = Some ctx"
    by (auto simp: ctx_style_def split: option.splits)
  have pos: "isEraser t \<or> 0 < lineWidth t" using t_lw by simp
  from stroke_paints [OF t_ro cv cx d ms pos, of png] t_er t_col t_lw
  obtain ps where "painted_of (run png t (d # ms)) = painted_of t @ ps"
    "\<forall>p\<in>set ps. stroke_with (swatch_color c) 3 p"
    "length ps = length (filter carries_point ms)"
    by auto
  then show ?thesis unfolding pre full by blast
qed

subsection \<open>Gestures and emissions\<close>

text \<open>
  C3: a gesture down, move \<open>\<times>\<close> N, up on a mounted canvas that is not read-only calls
  \<^verbatim>\<open>onSave\<close> exactly once, with the encoding of the canvas as it stands after the up
  event; after the down event and after each move event nothing has been emitted.
\<close>

theorem single_emission_per_gesture:
  assumes ro: "\<not> readOnly s" and cv: "canvasRef s \<noteq> None"
    and d: "is_down d" and ms: "\<forall>m\<in>set ms. is_move m" and u: "is_up u"
  shows "(\<forall>k. saved (run png s (take k (d # ms))) = saved s)
    \<and> (\<exists>canvas. canvasRef (run png s (d # ms @ [u])) = Some canvas
          \<and> saved (run png s (d # ms @ [u])) = saved s @ [toDataURL png canvas])"
proof -
  have q: "\<forall>a\<in>set (d # ms). is_down a \<or> is_move a" using d ms by simp
  have pre: "saved (run png s (take k (d # ms))) = saved s" for k
  proof -
    have "\<forall>a\<in>set (take k (d # ms)). is_down a \<or> is_move a"
      using q by (meson in_set_takeD)
    then show ?thesis by (simp only: quiet_run)
  qed
  let ?t = "run png s (d # ms)"
  from quiet_run [OF q, of png s] ro cv
  have t: "saved ?t = saved s" "\<not> readOnly ?t" "canvasRef ?t \<noteq> None" by simp_all
  then obtain canvas where c: "canvasRef ?t = Some canvas" by auto
  have fin: "run png s (d # ms @ [u]) = stopDrawing png ?t"
    using run_append [of png s "d # ms" "[u]"] up_step [OF u] by simp
  have "canvasRef (stopDrawing png ?t) = Some canvas"
    using c by (simp add: stopDrawing_frame)
  moreover have "saved (stopDrawing png ?t) = saved s @ [toDataURL png canvas]"
    using stopDrawing_emits [OF t(2) c, of png] t(1) by simp
  ultimately show ?thesis using pre fin by (auto simp del: run.simps)
qed

theorem single_emission_per_gesture_witness:
  "\<not> readOnly (mounted False 1) \<and> canvasRef (mounted False 1) \<noteq> None
   \<and> is_down (MouseDown 120 130) \<and> list_all is_move [MouseMove 121 131, MouseMove 125 140]
   \<and> is_up MouseUp
   \<and> saved (run sample_png (mounted False 1) [MouseDown 120 130]) = []
   \<and> length (saved (run sample_png (mounted False 1)
         [MouseDown 120 130, MouseMove 121 131, MouseMove 125 140, MouseUp])) = 1"
proof -
  have h1: "\<not> readOnly (mounted False 1)" and h2: "canvasRef (mounted False 1) \<noteq> None"
    by (simp_all add: mount_defs)
  have h3: "is_down (MouseDown 120 130)" and h5: "is_up MouseUp" by simp_all
  have h4: "\<forall>m\<in>set [MouseMove 121 131, MouseMove 125 140]. is_move m" by simp
  have s0: "saved (mounted False 1) = []" by (simp add: mount_defs)
  from single_emission_per_gesture [OF h1 h2 h3 h4 h5, of sample_png]
  have pre: "\<forall>k. saved (run sample_png (mounted False 1)
                 (take k [MouseDown 120 130, MouseMove 121 131, MouseMove 125 140])) = []"
    and fin: "\<exists>canvas. saved (run sample_png (mounted False 1)
                 ([MouseDown 120 130, MouseMove 121 131, MouseMove 125 140] @ [MouseUp]))
               = [] @ [toDataURL sample_png canvas]"
    using s0 by auto
  from pre have "saved (run sample_png (mounted False 1)
                 (take 1 [MouseDown 120 130, MouseMove 121 131, MouseMove 125 140])) = []"
    by blast
  then have a: "saved (run sample_png (mounted False 1) [MouseDown 120 130]) = []"
    by simp
  from fin have b: "length (saved (run sample_png (mounted False 1)
         [MouseDown 120 130, MouseMove 121 131, MouseMove 125 140, MouseUp])) = 1"
    by auto
  show ?thesis using h1 h2 h3 h5 a b by simp
qed

text \<open>
  C4: an up, leave or touch-end event that arrives while no stroke is in progress, on a
  mounted canvas that is not read-only, still calls \<^verbatim>\<open>onSave\<close> with the encoding of
  the canvas as it is; the handler does not look at \<^verbatim>\<open>isDrawing\<close>.
\<close>

theorem idle_up_or_leave_emits:
  assumes "\<not> readOnly s" and "canvasRef s = Some canvas" and "\<not> isDrawing s"
    and "ends_gesture a"
  shows "saved (step png s a) = saved s @ [toDataURL png canvas]
     \<and> canvasRef (step png s a) = Some canvas \<and> \<not> isDrawing (step png s a)"
  using assms by (cases a) (simp_all add: stopDrawing_def onSave_def Let_def)

theorem idle_up_or_leave_emits_witness:
  "\<not> readOnly (mounted False 1) \<and> \<not> isDrawing (mounted False 1) \<and> ends_gesture MouseLeave
   \<and> saved (step sample_png (mounted False 1) MouseLeave)
       = [''data:image/png;base64,iVBORw0KGgo='']"
proof -
  have h1: "\<not> readOnly (mounted False 1)" and h3: "\<not> isDrawing (mounted False 1)"
    by (simp_all add: mount_defs)
  have h4: "ends_gesture MouseLeave" by simp
  have s0: "saved (mounted False 1) = []" by (simp add: mount_defs)
  from idle_up_or_leave_emits [OF h1 mounted_canvas h3 h4, of sample_png] s0
  have "saved (step sample_png (mounted False 1) MouseLeave)
          = [''data:image/png;base64,iVBORw0KGgo='']"
    by (simp add: toDataURL_def sample_png_def)
  then show ?thesis using h1 h3 h4 by blast
qed

text \<open>
  C5: with \<^verbatim>\<open>readOnly\<close> true and no stroke in progress, after every prefix of every
  sequence of mouse and touch events the component is still idle, the canvas
  (its bitmap included) is the one it was, and nothing has been passed to \<^verbatim>\<open>onSave\<close>.
\<close>

theorem readOnly_suppression:
  assumes "readOnly s" and "\<not> isDrawing s" and "\<forall>a\<in>set as. is_pointer a"
  shows "\<forall>k. \<not> isDrawing (run png s (take k as))
           \<and> canvasRef (run png s (take k as)) = canvasRef s
           \<and> saved (run png s (take k as)) = saved s"
proof
  fix k
  have "\<forall>a\<in>set (take k as). is_pointer a" using assms(3) by (meson in_set_takeD)
  then have "run png s (take k as) = s" using assms(1) by (rule readOnly_run [rotated])
  then show "\<not> isDrawing (run png s (take k as))
           \<and> canvasRef (run png s (take k as)) = canvasRef s
           \<and> saved (run png s (take k as)) = saved s" using assms(2) by simp
qed

theorem readOnly_suppression_witness:
  "readOnly (mounted True 1) \<and> \<not> isDrawing (mounted True 1)
   \<and> list_all is_pointer
         [MouseDown 120 130, MouseMove 121 131, MouseUp, TouchStart [(1, 2)], TouchEnd]
   \<and> \<not> isDrawing (run sample_png (mounted True 1)
         [MouseDown 120 130, MouseMove 121 131, MouseUp, TouchStart [(1, 2)], TouchEnd])
   \<and> painted_of (run sample_png (mounted True 1)
         [MouseDown 120 130, MouseMove 121 131, MouseUp, TouchStart [(1, 2)], TouchEnd]) = []
   \<and> saved (run sample_png (mounted True 1)
         [MouseDown 120 130, MouseMove 121 131, MouseUp, TouchStart [(1, 2)], TouchEnd]) = []"
proof -
  let ?as = "[MouseDown 120 130, MouseMove 121 131, MouseUp, TouchStart [(1, 2)], TouchEnd]"
  have h1: "readOnly (mounted True 1)" and h2: "\<not> isDrawing (mounted True 1)"
    by (simp_all add: mount_defs)
  have h3: "\<forall>a\<in>set ?as. is_pointer a" by simp
  have s0: "saved (mounted True 1) = []" by (simp add: mount_defs)
  from readOnly_suppression [OF h1 h2 h3, of sample_png]
  have "\<not> isDrawing (run sample_png (mounted True 1) (take 5 ?as))
      \<and> canvasRef (run sample_png (mounted True 1) (take 5 ?as)) = canvasRef (mounted True 1)
      \<and> saved (run sample_png (mounted True 1) (take 5 ?as)) = saved (mounted True 1)"
    by blast
  then have "\<not> isDrawing (run sample_png (mounted True 1) ?as)
      \<and> painted_of (run sample_png (mounted True 1) ?as) = []
      \<and> saved (run sample_png (mounted True 1) ?as) = []"
    using s0 by (simp add: painted_of_def mounted_canvas)
  then show ?thesis using h1 h2 by simp
qed

text \<open>
  C9: a move event that arrives while no stroke is in progress changes nothing at all:
  the bitmap, the list of \<^verbatim>\<open>onSave\<close> calls and the rest of the state are as before.
\<close>

theorem idle_move_noop:
  "\<not> isDrawing s \<Longrightarrow> is_move a \<Longrightarrow> step png s a = s"
  by (cases a) (simp_all add: draw_def)

theorem idle_move_noop_witness:
  "\<not> isDrawing (mounted False 1) \<and> is_move (MouseMove 121 131)
   \<and> step sample_png (mounted False 1) (MouseMove 121 131) = mounted False 1"
proof -
  have h1: "\<not> isDrawing (mounted False 1)" by (simp add: mount_defs)
  have h2: "is_move (MouseMove 121 131)" by simp
  show ?thesis using h1 h2 idle_move_noop [OF h1 h2, of sample_png] by blast
qed

text \<open>
  C8: on a mounted canvas that is not read-only, a down event followed by a
  pointer-leave event ends in exactly the state a down event followed by an up event
  ends in: no stroke is in progress, and \<^verbatim>\<open>onSave\<close> was called once, with the
  encoding of the canvas.
\<close>

theorem leave_ends_stroke:
  assumes "\<not> readOnly s" and "canvasRef s \<noteq> None" and "is_down d"
  shows "run png s [d, MouseLeave] = run png s [d, MouseUp]
     \<and> \<not> isDrawing (run png s [d, MouseLeave])
     \<and> (\<exists>canvas. canvasRef (run png s [d, MouseLeave]) = Some canvas
           \<and> saved (run png s [d, MouseLeave]) = saved s @ [toDataURL png canvas])"
proof -
  let ?t = "step png s d"
  from quiet_step [of d png s] assms
  have t: "saved ?t = saved s" "\<not> readOnly ?t" "canvasRef ?t \<noteq> None" by simp_all
  then obtain canvas where c: "canvasRef ?t = Some canvas" by auto
  from stopDrawing_emits [OF t(2) c, of png] stopDrawing_frame [of png ?t] c t(1)
  show ?thesis by simp
qed

theorem leave_ends_stroke_witness:
  "\<not> readOnly (mounted False 1) \<and> canvasRef (mounted False 1) \<noteq> None
   \<and> is_down (MouseDown 120 130)
   \<and> isDrawing (run sample_png (mounted False 1) [MouseDown 120 130])
   \<and> \<not> isDrawing (run sample_png (mounted False 1) [MouseDown 120 130, MouseLeave])
   \<and> length (saved (run sample_png (mounted False 1) [MouseDown 120 130, MouseLeave])) = 1"
proof -
  have h1: "\<not> readOnly (mounted False 1)" and h2: "canvasRef (mounted False 1) \<noteq> None"
    and s0: "saved (mounted False 1) = []"
    by (simp_all add: mount_defs)
  have h3: "is_down (MouseDown 120 130)" by simp
  have dr: "isDrawing (run sample_png (mounted False 1) [MouseDown 120 130])"
    by (simp add: mounted_canvas startDrawing_def getCoordinates_def Let_def h1)
  from leave_ends_stroke [OF h1 h2 h3, of sample_png] s0
  have "\<not> isDrawing (run sample_png (mounted False 1) [MouseDown 120 130, MouseLeave])
     \<and> length (saved (run sample_png (mounted False 1) [MouseDown 120 130, MouseLeave])) = 1"
    by auto
  then show ?thesis using h1 h2 h3 dr by simp
qed

subsection \<open>The empty snapshot\<close>

text \<open>
  C1, as stated, fails: on a freshly mounted canvas with nothing painted, a down event
  followed by an up event passes a data URL to \<^verbatim>\<open>onSave\<close>, not the empty string; and
  a pointer-leave event right after a clear does the same.
\<close>

theorem blank_snapshot_counterexample:
  "painted_of (mounted False 1) = []
   \<and> saved (mounted False 1) = []
   \<and> saved (run sample_png (mounted False 1) [MouseDown 120 130, MouseUp])
       = [''data:image/png;base64,iVBORw0KGgo='']
   \<and> saved (run sample_png (mounted False 1) [ClickTrash, MouseLeave])
       = ['''', ''data:image/png;base64,iVBORw0KGgo='']"
  by (simp add: mount_defs handler_defs painted_of_def sample_png_def)

text \<open>
  C1, amended: on a mounted canvas that is not read-only, a clear passes the empty
  string to \<^verbatim>\<open>onSave\<close> when the 2D context can be obtained (and does nothing when it
  cannot), while every up, leave or touch-end event passes
  \<^verbatim>\<open>canvas.toDataURL('image/png')\<close>, which is never the empty string, whatever the
  bitmap holds, also right after a clear.
\<close>

theorem clear_emits_empty_gesture_emits_data_url:
  assumes "\<not> readOnly s" and "canvasRef s = Some canvas" and "ends_gesture a"
  shows "(ctx2d canvas \<noteq> None \<longrightarrow> saved (step png s ClickTrash) = saved s @ [''''])
     \<and> (ctx2d canvas = None \<longrightarrow> step png s ClickTrash = s)
     \<and> saved (step png s a) = saved s @ [toDataURL png canvas]
     \<and> toDataURL png canvas \<noteq> ''''
     \<and> (ctx2d canvas \<noteq> None \<longrightarrow>
          (\<exists>d. saved (run png s [ClickTrash, a]) = saved s @ ['''', d] \<and> d \<noteq> ''''))"
proof -
  have a: "saved (step png s a) = saved s @ [toDataURL png canvas]"
    using stopDrawing_emits [OF assms(1,2), of png] ends_step [OF assms(3), of png s] by simp
  have b: "saved (step png s ClickTrash) = saved s @ ['''']
     \<and> (\<exists>d. saved (run png s [ClickTrash, a]) = saved s @ ['''', d] \<and> d \<noteq> '''')"
    if "ctx2d canvas \<noteq> None"
  proof -
    from that obtain ctx where ctx: "ctx2d canvas = Some ctx" by auto
    let ?t = "step png s ClickTrash"
    have t: "?t = clearCanvas s" using assms(1) by simp
    from clearCanvas_emits [OF assms(2) ctx] assms(1) obtain canvas' where
      c: "saved ?t = saved s @ ['''']" "\<not> readOnly ?t" "canvasRef ?t = Some canvas'"
      unfolding t by auto
    have "saved (step png ?t a) = saved ?t @ [toDataURL png canvas']"
      using stopDrawing_emits [OF c(2,3), of png] ends_step [OF assms(3), of png ?t] by simp
    then have "saved (run png s [ClickTrash, a]) = saved s @ ['''', toDataURL png canvas']"
      using c(1) by simp
    then show ?thesis using c(1) toDataURL_nonempty by blast
  qed
  have c: "step png s ClickTrash = s" if "ctx2d canvas = None"
    using assms(1,2) that by (simp add: clearCanvas_def)
  show ?thesis using a b c toDataURL_nonempty by blast
qed

theorem clear_emits_empty_gesture_emits_data_url_witness:
  "\<not> readOnly (mounted False 1) \<and> ends_gesture MouseUp
   \<and> saved (step sample_png (mounted False 1) ClickTrash) = ['''']
   \<and> length (saved (step sample_png (mounted False 1) MouseUp)) = 1
   \<and> hd (saved (step sample_png (mounted False 1) MouseUp)) \<noteq> ''''"
proof -
  have h1: "\<not> readOnly (mounted False 1)" and s0: "saved (mounted False 1) = []"
    by (simp_all add: mount_defs)
  have h3: "ends_gesture MouseUp" by simp
  from clear_emits_empty_gesture_emits_data_url [OF h1 mounted_canvas h3, of sample_png] s0
  have "saved (step sample_png (mounted False 1) ClickTrash) = ['''']
   \<and> length (saved (step sample_png (mounted False 1) MouseUp)) = 1
   \<and> hd (saved (step sample_png (mounted False 1) MouseUp)) \<noteq> ''''"
    by simp
  then show ?thesis using h1 h3 by simp
qed

subsection \<open>The size of the encoded image\<close>




subsection \<open>Tools\<close>

text \<open>
  C6: a stroke begun with the eraser active (a down event that carries a point, then
  move events) paints every segment with colour \<^verbatim>\<open>#ffffff\<close> and width 20, whatever
  \<^verbatim>\<open>color\<close> and \<^verbatim>\<open>lineWidth\<close> hold; neither the eraser button nor the pencil button
  changes \<^verbatim>\<open>color\<close>; and in every state the component reaches after mounting,
  \<^verbatim>\<open>lineWidth\<close> is 3, \<^verbatim>\<open>color\<close> is a palette colour, a stroke after the pencil button
  paints every segment with the stored colour and width 3, and after a swatch click,
  the eraser button, any actions that are not swatch clicks, and the pencil button, a
  stroke paints every segment with that swatch's colour and width 3.
\<close>

theorem eraser_override:
  assumes "\<not> readOnly s" and "canvasRef s = Some canvas" and "ctx2d canvas = Some ctx"
    and "is_down d" and "carries_point d" and "\<forall>m\<in>set ms. is_move m"
  shows "(isEraser s \<longrightarrow>
            (\<exists>ps. painted_of (run png s (d # ms)) = painted_of s @ ps
               \<and> (\<forall>p\<in>set ps. stroke_with ''#ffffff'' 20 p)
               \<and> length ps = length (filter carries_point ms)))
     \<and> color (step png s ClickEraser) = color s
     \<and> color (step png s ClickPencil) = color s
     \<and> (s = run png (initCanvas img (initial_state ro cv0 box0 dpr)) acts \<longrightarrow>
            lineWidth s = 3 \<and> color s \<in> set palette
          \<and> (\<exists>ps. painted_of (run png (step png s ClickPencil) (d # ms)) = painted_of s @ ps
               \<and> (\<forall>p\<in>set ps. stroke_with (color s) 3 p)
               \<and> length ps = length (filter carries_point ms))
          \<and> ((\<forall>a\<in>set es. \<not> is_swatch a) \<longrightarrow>
               (\<exists>ps. painted_of (run png s
                         (ClickSwatch c # ClickEraser # es @ ClickPencil # d # ms))
                      = painted_of (run png s
                         (ClickSwatch c # ClickEraser # es @ [ClickPencil])) @ ps
                  \<and> (\<forall>p\<in>set ps. stroke_with (swatch_color c) 3 p)
                  \<and> length ps = length (filter carries_point ms))))"
proof -
  have a: "\<exists>ps. painted_of (run png s (d # ms)) = painted_of s @ ps
               \<and> (\<forall>p\<in>set ps. stroke_with ''#ffffff'' 20 p)
               \<and> length ps = length (filter carries_point ms)" if "isEraser s"
    using stroke_paints [OF assms(1-6), of png] that by simp
  have b: "color (step png s ClickEraser) = color s" "color (step png s ClickPencil) = color s"
    by (simp_all add: step_keeps_color)
  have av: "ctx_style s \<noteq> None" using assms(2,3) by (simp add: ctx_style_def)
  have c: "lineWidth s = 3 \<and> color s \<in> set palette
          \<and> (\<exists>ps. painted_of (run png (step png s ClickPencil) (d # ms)) = painted_of s @ ps
               \<and> (\<forall>p\<in>set ps. stroke_with (color s) 3 p)
               \<and> length ps = length (filter carries_point ms))
          \<and> ((\<forall>a\<in>set es. \<not> is_swatch a) \<longrightarrow>
               (\<exists>ps. painted_of (run png s
                         (ClickSwatch c # ClickEraser # es @ ClickPencil # d # ms))
                      = painted_of (run png s
                         (ClickSwatch c # ClickEraser # es @ [ClickPencil])) @ ps
                  \<and> (\<forall>p\<in>set ps. stroke_with (swatch_color c) 3 p)
                  \<and> length ps = length (filter carries_point ms)))"
    if r: "s = run png (initCanvas img (initial_state ro cv0 box0 dpr)) acts"
  proof -
    have w: "lineWidth s = 3"
      unfolding r by (simp add: run_lineWidth initCanvas_lineWidth initial_state_def)
    have "color (initCanvas img (initial_state ro cv0 box0 dpr)) \<in> set palette"
      by (simp add: initCanvas_color initial_state_def palette_def)
    then have col: "color s \<in> set palette" unfolding r by (rule run_color)
    let ?t = "s\<lparr>isEraser := False\<rparr>"
    have t: "step png s ClickPencil = ?t" using assms(1) by simp
    have h: "\<not> readOnly ?t" "canvasRef ?t = Some canvas" "isEraser ?t \<or> 0 < lineWidth ?t"
      using assms(1,2) w by simp_all
    have p: "painted_of ?t = painted_of s" by (simp add: painted_of_def)
    from stroke_paints [OF h(1,2) assms(3-6) h(3), of png]
    obtain ps where "painted_of (run png ?t (d # ms)) = painted_of ?t @ ps"
      "\<forall>p\<in>set ps. stroke_with (color s) (lineWidth s) p"
      "length ps = length (filter carries_point ms)"
      by auto
    then have pen: "\<exists>ps. painted_of (run png (step png s ClickPencil) (d # ms)) = painted_of s @ ps
               \<and> (\<forall>p\<in>set ps. stroke_with (color s) 3 p)
               \<and> length ps = length (filter carries_point ms)"
      unfolding t p w by blast
    have sel: "\<exists>ps. painted_of (run png s
                         (ClickSwatch c # ClickEraser # es @ ClickPencil # d # ms))
                      = painted_of (run png s
                         (ClickSwatch c # ClickEraser # es @ [ClickPencil])) @ ps
                  \<and> (\<forall>p\<in>set ps. stroke_with (swatch_color c) 3 p)
                  \<and> length ps = length (filter carries_point ms)"
      if "\<forall>a\<in>set es. \<not> is_swatch a"
      by (rule pen_stroke_after [OF assms(1) av w that assms(4,5,6)])
    show ?thesis using w col pen sel by blast
  qed
  show ?thesis using a b c by blast
qed

theorem eraser_override_witness:
  "\<not> readOnly (run sample_png (mounted False 1) [ClickSwatch Red, ClickEraser])
   \<and> is_down (MouseDown 120 130) \<and> carries_point (MouseDown 120 130)
   \<and> list_all is_move [MouseMove 121 131]
   \<and> filter is_swatch [MouseDown 1 2, MouseMove 3 4, MouseUp] = []
   \<and> isEraser (run sample_png (mounted False 1) [ClickSwatch Red, ClickEraser])
   \<and> color (run sample_png (mounted False 1) [ClickSwatch Red, ClickEraser]) = ''#dc2626''
   \<and> list_all (stroke_with ''#ffffff'' 20)
        (painted_of (run sample_png (mounted False 1)
           [ClickSwatch Red, ClickEraser, MouseDown 120 130, MouseMove 121 131]))
   \<and> length (painted_of (run sample_png (mounted False 1)
           [ClickSwatch Red, ClickEraser, MouseDown 120 130, MouseMove 121 131])) = 1
   \<and> list_all (stroke_with ''#dc2626'' 3)
        (painted_of (run sample_png (mounted False 1)
           [ClickSwatch Red, ClickEraser, ClickPencil, MouseDown 120 130, MouseMove 121 131]))
   \<and> length (painted_of (run sample_png (mounted False 1)
           [ClickSwatch Red, ClickEraser, ClickPencil, MouseDown 120 130, MouseMove 121 131])) = 1
   \<and> list_all (stroke_with ''#2563eb'' 3)
        (drop 1 (painted_of (run sample_png (mounted False 1)
           [ClickSwatch Red, ClickEraser, ClickSwatch Blue, ClickEraser,
            MouseDown 1 2, MouseMove 3 4, MouseUp,
            ClickPencil, MouseDown 120 130, MouseMove 121 131])))
   \<and> length (painted_of (run sample_png (mounted False 1)
           [ClickSwatch Red, ClickEraser, ClickSwatch Blue, ClickEraser,
            MouseDown 1 2, MouseMove 3 4, MouseUp,
            ClickPencil, MouseDown 120 130, MouseMove 121 131])) = 2"
proof -
  let ?s = "run sample_png (mounted False 1) [ClickSwatch Red, ClickEraser]"
  let ?d = "MouseDown 120 130"
  let ?ms = "[MouseMove 121 131]"
  let ?es = "[MouseDown 1 2, MouseMove 3 4, MouseUp]"
  have ro: "\<not> readOnly (mounted False 1)" by (simp add: mount_defs)
  have s: "?s = (mounted False 1)\<lparr>color := ''#dc2626'', isEraser := True\<rparr>" using ro by simp
  have r: "?s = run sample_png
      (initCanvas None (initial_state False (Some (new_canvas 50 80))
         (Some \<lparr>clientWidth = 100, clientHeight = 50\<rparr>) 1)) [ClickSwatch Red, ClickEraser]"
    by (simp add: mounted_def)
  have h1: "\<not> readOnly ?s" using ro by (simp add: s)
  have h2: "canvasRef ?s = Some
     \<lparr>cv_width = 100, cv_height = 50, rect_left = 50, rect_top = 80,
      ctx2d = Some \<lparr>ctx_scale = (1, 1), lineCap = ''round'', lineJoin = ''round'',
                     strokeStyle = ''#000000'', ctx_lineWidth = 1, path = []\<rparr>,
      painted = []\<rparr>"
    using mounted_canvas [of False] by (simp add: s)
  have h3: "ctx2d \<lparr>cv_width = 100, cv_height = 50, rect_left = 50, rect_top = 80,
      ctx2d = Some \<lparr>ctx_scale = (1, 1), lineCap = ''round'', lineJoin = ''round'',
                     strokeStyle = ''#000000'', ctx_lineWidth = 1, path = []\<rparr>,
      painted = []\<rparr> = Some \<lparr>ctx_scale = (1, 1), lineCap = ''round'', lineJoin = ''round'',
                     strokeStyle = ''#000000'', ctx_lineWidth = 1, path = []\<rparr>"
    by simp
  have h4: "is_down ?d" and h5: "carries_point ?d" by simp_all
  have h6: "\<forall>m\<in>set ?ms. is_move m" by simp
  have h7: "\<forall>a\<in>set ?es. \<not> is_swatch a" by simp
  have e: "isEraser ?s" and c: "color ?s = ''#dc2626''" and p: "painted_of ?s = []"
    using ro by (simp_all add: painted_of_def mounted_canvas)
  have pre: "length (painted_of (run sample_png ?s
               (ClickSwatch Blue # ClickEraser # ?es @ [ClickPencil]))) = 1"
    using ro by (simp add: mounted_canvas handler_defs painted_of_def)
  have app: "run sample_png ?s xs
               = run sample_png (mounted False 1) ([ClickSwatch Red, ClickEraser] @ xs)" for xs
    by (simp only: run_append)
  from eraser_override [OF h1 h2 h3 h4 h5 h6, of sample_png None False
         "Some (new_canvas 50 80)" "Some \<lparr>clientWidth = 100, clientHeight = 50\<rparr>" 1
         "[ClickSwatch Red, ClickEraser]" ?es Blue] e r c p h7
  obtain ps qs rs where
    ps: "painted_of (run sample_png ?s (?d # ?ms)) = ps"
      "\<forall>p\<in>set ps. stroke_with ''#ffffff'' 20 p" "length ps = 1"
    and qs: "painted_of (run sample_png (step sample_png ?s ClickPencil) (?d # ?ms)) = qs"
      "\<forall>p\<in>set qs. stroke_with ''#dc2626'' 3 p" "length qs = 1"
    and rs: "painted_of (run sample_png ?s
               (ClickSwatch Blue # ClickEraser # ?es @ ClickPencil # ?d # ?ms))
             = painted_of (run sample_png ?s
               (ClickSwatch Blue # ClickEraser # ?es @ [ClickPencil])) @ rs"
      "\<forall>p\<in>set rs. stroke_with (swatch_color Blue) 3 p" "length rs = 1"
    by (auto simp del: run.simps step.simps)
  have l: "list_all (stroke_with ''#ffffff'' 20) ps" "list_all (stroke_with ''#dc2626'' 3) qs"
    "list_all (stroke_with ''#2563eb'' 3) rs"
    using ps(2) qs(2) rs(2) by (simp_all add: list_all_iff)
  have a1: "list_all (stroke_with ''#ffffff'' 20)
        (painted_of (run sample_png (mounted False 1)
           [ClickSwatch Red, ClickEraser, ?d, MouseMove 121 131]))
      \<and> length (painted_of (run sample_png (mounted False 1)
           [ClickSwatch Red, ClickEraser, ?d, MouseMove 121 131])) = 1"
    using ps(1,3) l(1) app [of "?d # ?ms"] by simp
  have a2: "list_all (stroke_with ''#dc2626'' 3)
        (painted_of (run sample_png (mounted False 1)
           [ClickSwatch Red, ClickEraser, ClickPencil, ?d, MouseMove 121 131]))
      \<and> length (painted_of (run sample_png (mounted False 1)
           [ClickSwatch Red, ClickEraser, ClickPencil, ?d, MouseMove 121 131])) = 1"
    using qs(1,3) l(2) app [of "ClickPencil # ?d # ?ms"] by simp
  have a3: "list_all (stroke_with ''#2563eb'' 3)
        (drop 1 (painted_of (run sample_png (mounted False 1)
           [ClickSwatch Red, ClickEraser, ClickSwatch Blue, ClickEraser,
            MouseDown 1 2, MouseMove 3 4, MouseUp, ClickPencil, ?d, MouseMove 121 131])))
      \<and> length (painted_of (run sample_png (mounted False 1)
           [ClickSwatch Red, ClickEraser, ClickSwatch Blue, ClickEraser,
            MouseDown 1 2, MouseMove 3 4, MouseUp, ClickPencil, ?d, MouseMove 121 131])) = 2"
    using rs(1,3) l(3) pre
      app [of "ClickSwatch Blue # ClickEraser # ?es @ ClickPencil # ?d # ?ms"]
    by (simp del: run.simps step.simps)
  show ?thesis using h1 h4 h5 e c a1 a2 a3 by (simp del: run.simps step.simps)
qed

subsection \<open>An unavailable render target\<close>

text \<open>
  C10, as stated, fails: with the canvas mounted and its 2D context not obtainable,
  \<open>stopDrawing\<close> is not a no-op; it calls \<^verbatim>\<open>onSave\<close> with the canvas's encoding.
\<close>

theorem unavailable_target_counterexample:
  "map_option ctx2d (canvasRef no_context) = Some None
   \<and> saved no_context = []
   \<and> saved (stopDrawing sample_png no_context) = [''data:image/png;base64,iVBORw0KGgo='']"
  by (simp add: no_context_def mount_defs handler_defs sample_png_def)

text \<open>
  C10, amended: when the canvas is not mounted or its 2D context cannot be obtained,
  \<open>startDrawing\<close>, \<open>draw\<close> and \<open>clearCanvas\<close> leave the whole state unchanged and no
  handler throws. \<open>stopDrawing\<close> keeps the canvas, resets \<^verbatim>\<open>isDrawing\<close> unless
  read-only, calls \<^verbatim>\<open>onSave\<close> with nothing when the canvas is not mounted, and with
  the canvas's encoding when the canvas is mounted and only its context is missing.
\<close>

theorem unavailable_target:
  assumes "canvasRef s = None \<or> map_option ctx2d (canvasRef s) = Some None"
  shows "startDrawing s e = s \<and> draw s e = s \<and> clearCanvas s = s
     \<and> thrown (stopDrawing png s) = thrown s
     \<and> canvasRef (stopDrawing png s) = canvasRef s
     \<and> (canvasRef s = None \<longrightarrow> saved (stopDrawing png s) = saved s)
     \<and> (\<not> readOnly s \<longrightarrow> \<not> isDrawing (stopDrawing png s))
     \<and> (\<forall>canvas. \<not> readOnly s \<and> canvasRef s = Some canvas \<longrightarrow>
           saved (stopDrawing png s) = saved s @ [toDataURL png canvas])"
proof -
  have a: "startDrawing s e = s" using assms
    by (auto simp: startDrawing_def split: option.splits)
  have b: "draw s e = s" using assms
    by (auto simp: draw_def split: option.splits)
  have c: "clearCanvas s = s" using assms
    by (auto simp: clearCanvas_def split: option.splits)
  have d: "(canvasRef s = None \<longrightarrow> saved (stopDrawing png s) = saved s)
     \<and> (\<not> readOnly s \<longrightarrow> \<not> isDrawing (stopDrawing png s))
     \<and> (\<forall>canvas. \<not> readOnly s \<and> canvasRef s = Some canvas \<longrightarrow>
           saved (stopDrawing png s) = saved s @ [toDataURL png canvas])"
    by (simp add: stopDrawing_def onSave_def Let_def split: option.split)
  show ?thesis using a b c d stopDrawing_frame [of png s] by simp
qed

theorem unavailable_target_witness:
  "map_option ctx2d (canvasRef no_context) = Some None
   \<and> startDrawing no_context (MouseEv 120 130) = no_context
   \<and> draw no_context (MouseEv 121 131) = no_context
   \<and> clearCanvas no_context = no_context
   \<and> thrown (stopDrawing sample_png no_context) = []
   \<and> length (saved (stopDrawing sample_png no_context)) = 1"
proof -
  have h: "map_option ctx2d (canvasRef no_context) = Some None"
    and ro: "\<not> readOnly no_context" and s0: "saved no_context = []" "thrown no_context = []"
    by (simp_all add: no_context_def mount_defs)
  then obtain canvas where c: "canvasRef no_context = Some canvas" by auto
  have h': "canvasRef no_context = None \<or> map_option ctx2d (canvasRef no_context) = Some None"
    using h by simp
  from unavailable_target [OF h', of "MouseEv 120 130" sample_png]
       unavailable_target [OF h', of "MouseEv 121 131" sample_png] ro c s0
  show ?thesis using h by simp
qed

subsection \<open>Coordinates\<close>

text \<open>
  C7: for a mouse event, and for the first touch of a touch event, the local point is
  the client point minus the top-left corner of the canvas's bounding rectangle; with
  the corner at (50, 80) a pointer at (120, 130) maps to (70, 50), for both kinds.
\<close>

theorem getCoordinates_local:
  "getCoordinates (MouseEv cx cy) canvas = Inr (cx - rect_left canvas, cy - rect_top canvas)
   \<and> getCoordinates (TouchEv ((cx, cy) # rest)) canvas
       = Inr (cx - rect_left canvas, cy - rect_top canvas)
   \<and> getCoordinates (MouseEv 120 130) (new_canvas 50 80) = Inr (70, 50)
   \<and> getCoordinates (TouchEv [(120, 130)]) (new_canvas 50 80) = Inr (70, 50)"
  by (simp add: getCoordinates_def new_canvas_def)

end
